theory Spec2Isabelle
  imports Complex_Main
begin

section \<open>JavaScript values\<close>

text \<open>
  The dialogue manager of \<^verbatim>\<open>Code/src/types.ts\<close> distinguishes \<^verbatim>\<open>null\<close> (the initial
  and the cleared value of every context field) from \<^verbatim>\<open>undefined\<close> (what a lookup
  of a missing property returns). Both are kept apart here, since the guards of the machine
  compare against one or the other.
\<close>

datatype 'a js = Undefined | Null | Val 'a

text \<open>\<^verbatim>\<open>x != null\<close> (loose inequality): false for \<^verbatim>\<open>null\<close> and for \<^verbatim>\<open>undefined\<close>.\<close>

fun neq_null :: "'a js \<Rightarrow> bool" where
  "neq_null Undefined = False"
| "neq_null Null = False"
| "neq_null (Val _) = True"

text \<open>\<^verbatim>\<open>!!x\<close> and \<^verbatim>\<open>x ? a : b\<close> on a string: the empty string is falsy.\<close>

fun truthy_str :: "string js \<Rightarrow> bool" where
  "truthy_str Undefined = False"
| "truthy_str Null = False"
| "truthy_str (Val s) = (s \<noteq> [])"

text \<open>\<^verbatim>\<open>!!x\<close> on a boolean.\<close>

fun truthy_bool :: "bool js \<Rightarrow> bool" where
  "truthy_bool Undefined = False"
| "truthy_bool Null = False"
| "truthy_bool (Val b) = b"

text \<open>A value inside a template literal, \<^verbatim>\<open>`${x}`\<close>.\<close>

fun template :: "string js \<Rightarrow> string" where
  "template Undefined = ''undefined''"
| "template Null = ''null''"
| "template (Val s) = s"

text \<open>Reading an optional property of an object: a missing one reads as \<^verbatim>\<open>undefined\<close>.\<close>

fun read_prop :: "'a option \<Rightarrow> 'a js" where
  "read_prop None = Undefined"
| "read_prop (Some v) = Val v"

text \<open>
  \<^verbatim>\<open>String.prototype.toLowerCase\<close> is a built-in of the language, the lower-casing of
  Unicode, and not code of the repository. The resolvers below take it as a parameter,
  a function on utterances; an utterance is a \<open>string\<close>, the bytes of its UTF-8 form.
  The function \<open>toLowerCase\<close> here is the built-in on ASCII only: it lower-cases the
  letters A to Z and keeps every other character, so that on the letter \<^verbatim>\<open>U+00C9\<close> it
  is not the built-in. It is the lower-casing with which the machine is run in this
  theory; every key of the grammar is made of lower-case ASCII letters, digits and blanks.
\<close>

definition lower_char :: "char \<Rightarrow> char" where
  "lower_char c =
     (case map_of (zip ''ABCDEFGHIJKLMNOPQRSTUVWXYZ'' ''abcdefghijklmnopqrstuvwxyz'') c of
        None \<Rightarrow> c
      | Some d \<Rightarrow> d)"

definition toLowerCase :: "string \<Rightarrow> string" where
  "toLowerCase u = map lower_char u"

datatype error = TypeError


section \<open>The vocabulary\<close>

record GrammarEntry =
  entry_person :: "string option"
  entry_day :: "string option"
  entry_time :: "string option"
  entry_yesno :: "bool option"

definition person_entry :: "string \<Rightarrow> GrammarEntry" where
  "person_entry p = \<lparr>entry_person = Some p, entry_day = None, entry_time = None, entry_yesno = None\<rparr>"

definition day_entry :: "string \<Rightarrow> GrammarEntry" where
  "day_entry d = \<lparr>entry_person = None, entry_day = Some d, entry_time = None, entry_yesno = None\<rparr>"

definition time_entry :: "string \<Rightarrow> GrammarEntry" where
  "time_entry t = \<lparr>entry_person = None, entry_day = None, entry_time = Some t, entry_yesno = None\<rparr>"

definition yesno_entry :: "bool \<Rightarrow> GrammarEntry" where
  "yesno_entry b = \<lparr>entry_person = None, entry_day = None, entry_time = None, entry_yesno = Some b\<rparr>"

definition grammar :: "(string \<times> GrammarEntry) list" where
  "grammar =
    [(''vlad'', person_entry ''Vladislav Maraev''),
     (''aya'', person_entry ''Nayat Astaiza Soriano''),
     (''victoria'', person_entry ''Victoria Daniilidou''),
     (''matteo'', person_entry ''Matteo Ripamonti''),
     (''lou'', person_entry ''Lou Reed''),
     (''david'', person_entry ''David Bowie''),
     (''monday'', day_entry ''Monday''),
     (''tuesday'', day_entry ''Tuesday''),
     (''wednesday'', day_entry ''Wednesday''),
     (''thursday'', day_entry ''Thursday''),
     (''friday'', day_entry ''Friday''),
     (''saturday'', day_entry ''Saturday''),
     (''sunday'', day_entry ''Sunday''),
     (''8'', time_entry ''8:00''),
     (''9'', time_entry ''9:00''),
     (''10'', time_entry ''10:00''),
     (''11'', time_entry ''11:00''),
     (''12'', time_entry ''12:00''),
     (''13'', time_entry ''13:00''),
     (''14'', time_entry ''14:00''),
     (''15'', time_entry ''15:00''),
     (''16'', time_entry ''16:00''),
     (''17'', time_entry ''17:00''),
     (''18'', time_entry ''18:00''),
     (''19'', time_entry ''19:00''),
     (''20'', time_entry ''20:00''),
     (''yes'', yesno_entry True),
     (''yep'', yesno_entry True),
     (''of course'', yesno_entry True),
     (''sure'', yesno_entry True),
     (''no'', yesno_entry False),
     (''nope'', yesno_entry False),
     (''no way'', yesno_entry False),
     (''never'', yesno_entry False)]"


text \<open>\<^verbatim>\<open>(grammar[key] || {}).field\<close>\<close>

definition lookup_field :: "(GrammarEntry \<Rightarrow> 'a option) \<Rightarrow> string \<Rightarrow> 'a js" where
  "lookup_field field k = (case map_of grammar k of None \<Rightarrow> Undefined | Some e \<Rightarrow> read_prop (field e))"


definition getPerson_with :: "(string \<Rightarrow> string) \<Rightarrow> string \<Rightarrow> string js" where
  "getPerson_with lc utt = lookup_field entry_person (lc utt)"

definition getNumber_with :: "(string \<Rightarrow> string) \<Rightarrow> string \<Rightarrow> string js" where
  "getNumber_with lc utt = lookup_field entry_day (lc utt)"

definition getFullDay_with :: "(string \<Rightarrow> string) \<Rightarrow> string \<Rightarrow> bool js" where
  "getFullDay_with lc utt = lookup_field entry_yesno (lc utt)"

definition getTime_with :: "(string \<Rightarrow> string) \<Rightarrow> string \<Rightarrow> string js" where
  "getTime_with lc utt = lookup_field entry_time (lc utt)"

definition getConfirm_with :: "(string \<Rightarrow> string) \<Rightarrow> string \<Rightarrow> bool js" where
  "getConfirm_with lc utt = lookup_field entry_yesno (lc utt)"


definition getPerson :: "string \<Rightarrow> string js" where
  "getPerson utt = getPerson_with toLowerCase utt"

definition getNumber :: "string \<Rightarrow> string js" where
  "getNumber utt = getNumber_with toLowerCase utt"

definition getFullDay :: "string \<Rightarrow> bool js" where
  "getFullDay utt = getFullDay_with toLowerCase utt"

definition getTime :: "string \<Rightarrow> string js" where
  "getTime utt = getTime_with toLowerCase utt"

definition getConfirm :: "string \<Rightarrow> bool js" where
  "getConfirm utt = getConfirm_with toLowerCase utt"


section \<open>Context, events and directives\<close>

record hypothesis =
  utterance :: string
  confidence :: real

text \<open>
  \<^verbatim>\<open>DMContext\<close> without \<^verbatim>\<open>spstRef\<close>: what the machine sends to that actor is the
  list of directives a step returns.
\<close>

record DMContext =
  lastResult :: "hypothesis list js"
  person :: "string js"
  day :: "string js"
  yesno :: "bool js"
  time :: "string js"

definition initial_context :: DMContext where
  "initial_context = \<lparr>lastResult = Null, person = Null, day = Null, yesno = Null, time = Null\<rparr>"

text \<open>
  The events the machine has a handler for, and \<open>OTHER\<close> for every other event of the
  speech actor.
\<close>

datatype dm_event =
    ASRTTS_READY
  | CLICK
  | SPEAK_COMPLETE
  | RECOGNISED "hypothesis list"
  | LISTEN_COMPLETE
  | ASR_NOINPUT
  | OTHER string

datatype directive = PREPARE | SPEAK string | LISTEN

datatype dm_state =
    Prepare | WaitToStart | Greeting
  | AskPerson | ListenPerson | CheckPerson
  | AskDay | ListenDay | CheckDay
  | AskFullDay | ListenFullDay | CheckFullDay
  | AskTime | ListenTime | CheckTime
  | ConfirmAppointment | ListenConfirm | CheckConfirmation
  | Done | New_state_1

type_synonym snapshot = "dm_state \<times> DMContext"


section \<open>Actions\<close>

text \<open>
  The \<^verbatim>\<open>assign\<close> actions of the machine, one constructor for each one in the source.
  The five \<open>Recognised\<close> actions carry \<^verbatim>\<open>event.value\<close>.
\<close>

datatype dm_action =
    RecognisedPerson "hypothesis list"
  | RecognisedDay "hypothesis list"
  | RecognisedFullDay "hypothesis list"
  | RecognisedTime "hypothesis list"
  | RecognisedConfirm "hypothesis list"
  | LastResultNull
  | ClearValues

text \<open>\<^verbatim>\<open>value[0].utterance\<close>: a \<^verbatim>\<open>TypeError\<close> on an empty array.\<close>

fun first_utterance :: "hypothesis list \<Rightarrow> error + string" where
  "first_utterance [] = Inl TypeError"
| "first_utterance (h # _) = Inr (utterance h)"

text \<open>\<^verbatim>\<open>context.lastResult![0].utterance\<close>: a \<^verbatim>\<open>TypeError\<close> on \<^verbatim>\<open>null\<close> as well.\<close>

fun last_utterance :: "hypothesis list js \<Rightarrow> error + string" where
  "last_utterance (Val v) = first_utterance v"
| "last_utterance _ = Inl TypeError"

fun assign :: "dm_action \<Rightarrow> DMContext \<Rightarrow> error + DMContext" where
  "assign (RecognisedPerson v) ctx =
     (case first_utterance v of
        Inl err \<Rightarrow> Inl err
      | Inr u \<Rightarrow>
          (let p = getPerson u in
           Inr (if truthy_str p then ctx\<lparr>person := p, lastResult := Val v\<rparr>
                else ctx\<lparr>lastResult := Val v\<rparr>)))"
| "assign (RecognisedDay v) ctx =
     (case first_utterance v of
        Inl err \<Rightarrow> Inl err
      | Inr u \<Rightarrow>
          (let d = getNumber u in
           Inr (if truthy_str d then ctx\<lparr>day := d, lastResult := Val v\<rparr>
                else ctx\<lparr>lastResult := Val v\<rparr>)))"
| "assign (RecognisedFullDay v) ctx =
     (case first_utterance v of
        Inl err \<Rightarrow> Inl err
      | Inr u \<Rightarrow>
          (let confirmation = getConfirm u in
           Inr (if confirmation \<noteq> Undefined then ctx\<lparr>yesno := confirmation, lastResult := Val v\<rparr>
                else ctx\<lparr>lastResult := Val v\<rparr>)))"
| "assign (RecognisedTime v) ctx =
     (case first_utterance v of
        Inl err \<Rightarrow> Inl err
      | Inr u \<Rightarrow>
          (let t = getTime u in
           Inr (if truthy_str t then ctx\<lparr>time := t, lastResult := Val v\<rparr>
                else ctx\<lparr>lastResult := Val v\<rparr>)))"
| "assign (RecognisedConfirm v) ctx =
     (case first_utterance v of
        Inl err \<Rightarrow> Inl err
      | Inr u \<Rightarrow>
          (let confirmation = getConfirm u in
           Inr (if confirmation \<noteq> Undefined then ctx\<lparr>lastResult := Val v\<rparr>
                else ctx\<lparr>lastResult := Val v\<rparr>)))"
| "assign LastResultNull ctx = Inr (ctx\<lparr>lastResult := Null\<rparr>)"
| "assign ClearValues ctx =
     Inr (ctx\<lparr>lastResult := Null, person := Null, day := Null, time := Null, yesno := Null\<rparr>)"

fun assign_all :: "dm_action list \<Rightarrow> DMContext \<Rightarrow> error + DMContext" where
  "assign_all [] ctx = Inr ctx"
| "assign_all (a # as) ctx =
     (case assign a ctx of Inl err \<Rightarrow> Inl err | Inr ctx' \<Rightarrow> assign_all as ctx')"


section \<open>The machine\<close>

text \<open>The summary that \<open>ConfirmAppointment\<close> speaks.\<close>

definition UttConfirm :: "DMContext \<Rightarrow> string" where
  "UttConfirm ctx =
     ''Do you want me to create an appointment with '' @ template (person ctx) @ '' ''
     @ ''on '' @ template (day ctx) @ '' ''
     @ (if yesno ctx = Val True then ''for the whole day?''
        else ''at '' @ template (time ctx) @ ''?'')"

text \<open>
  The entry action of each state: the directives it sends to the speech actor. The one of
  \<open>CheckConfirmation\<close> reads the first hypothesis of \<open>lastResult\<close> and throws when
  there is none.
\<close>

fun entry :: "dm_state \<Rightarrow> DMContext \<Rightarrow> error + directive list" where
  "entry Prepare ctx = Inr [PREPARE]"
| "entry WaitToStart ctx = Inr []"
| "entry Greeting ctx = Inr [SPEAK ''Hi, let's create an appointment'']"
| "entry AskPerson ctx = Inr [SPEAK ''Who are you meeting with?'']"
| "entry ListenPerson ctx = Inr [LISTEN]"
| "entry CheckPerson ctx =
     Inr [SPEAK (if neq_null (person ctx) then ''You will meet '' @ template (person ctx) @ ''.''
                 else ''I didn't understand the person's name.'')]"
| "entry AskDay ctx = Inr [SPEAK ''Which day do you want the meeting?'']"
| "entry ListenDay ctx = Inr [LISTEN]"
| "entry CheckDay ctx =
     Inr [SPEAK (if truthy_str (day ctx) then ''The day will be '' @ template (day ctx) @ ''.''
                 else ''I did't understand the day'')]"
| "entry AskFullDay ctx = Inr [SPEAK ''Will it take the whole day?'']"
| "entry ListenFullDay ctx = Inr [LISTEN]"
| "entry CheckFullDay ctx =
     Inr [SPEAK (if yesno ctx = Val True then ''Ok, you will take the whole day.''
                 else ''Ok, the meeting will not be the whole day.'')]"
| "entry AskTime ctx = Inr [SPEAK ''What time is your meeting?'']"
| "entry ListenTime ctx = Inr [LISTEN]"
| "entry CheckTime ctx =
     Inr [SPEAK (if neq_null (time ctx) then ''You will meet at '' @ template (time ctx) @ ''.''
                 else ''I did not understand the time.'')]"
| "entry ConfirmAppointment ctx = Inr [SPEAK (UttConfirm ctx)]"
| "entry ListenConfirm ctx = Inr [LISTEN]"
| "entry CheckConfirmation ctx =
     (case last_utterance (lastResult ctx) of
        Inl err \<Rightarrow> Inl err
      | Inr u \<Rightarrow>
          (let confirmation = getConfirm u in
           Inr [SPEAK (if confirmation = Val True then ''Your appointment has been created!''
                       else if confirmation = Val False then ''Okay, let's start over.''
                       else ''I didn't understand. Let's start over.'')]))"
| "entry Done ctx = Inr []"
| "entry New_state_1 ctx = Inr []"

fun exit_actions :: "dm_state \<Rightarrow> dm_action list" where
  "exit_actions CheckConfirmation = [ClearValues]"
| "exit_actions _ = []"

text \<open>
  The \<^verbatim>\<open>on\<close> table of each state: for an event, the first transition whose guard holds,
  as its target (\<open>None\<close> for a transition with actions only) and its actions. The result
  \<open>Inr None\<close> says that the state has no handler for the event. A guard that throws
  stops the machine.
\<close>

fun transition ::
  "dm_state \<Rightarrow> dm_event \<Rightarrow> DMContext \<Rightarrow> error + (dm_state option \<times> dm_action list) option"
where
  "transition Prepare e ctx =
     (case e of
        ASRTTS_READY \<Rightarrow> Inr (Some (Some WaitToStart, []))
      | _ \<Rightarrow> Inr None)"
| "transition WaitToStart e ctx =
     (case e of
        CLICK \<Rightarrow> Inr (Some (Some Greeting, []))
      | _ \<Rightarrow> Inr None)"
| "transition Greeting e ctx =
     (case e of
        SPEAK_COMPLETE \<Rightarrow> Inr (Some (Some AskPerson, []))
      | _ \<Rightarrow> Inr None)"
| "transition AskPerson e ctx =
     (case e of
        SPEAK_COMPLETE \<Rightarrow> Inr (Some (Some ListenPerson, []))
      | _ \<Rightarrow> Inr None)"
| "transition ListenPerson e ctx =
     (case e of
        RECOGNISED v \<Rightarrow> Inr (Some (None, [RecognisedPerson v]))
      | LISTEN_COMPLETE \<Rightarrow>
          if neq_null (person ctx) then Inr (Some (Some CheckPerson, []))
          else Inr (Some (Some AskPerson, []))
      | ASR_NOINPUT \<Rightarrow> Inr (Some (None, [LastResultNull]))
      | _ \<Rightarrow> Inr None)"
| "transition CheckPerson e ctx =
     (case e of
        SPEAK_COMPLETE \<Rightarrow>
          if neq_null (person ctx) then Inr (Some (Some AskDay, []))
          else Inr (Some (Some AskPerson, []))
      | _ \<Rightarrow> Inr None)"
| "transition AskDay e ctx =
     (case e of
        SPEAK_COMPLETE \<Rightarrow> Inr (Some (Some ListenDay, []))
      | _ \<Rightarrow> Inr None)"
| "transition ListenDay e ctx =
     (case e of
        RECOGNISED v \<Rightarrow> Inr (Some (None, [RecognisedDay v]))
      | LISTEN_COMPLETE \<Rightarrow>
          if neq_null (Val (truthy_str (day ctx))) then Inr (Some (Some CheckDay, []))
          else Inr (Some (Some AskDay, []))
      | ASR_NOINPUT \<Rightarrow> Inr (Some (None, [LastResultNull]))
      | _ \<Rightarrow> Inr None)"
| "transition CheckDay e ctx =
     (case e of
        SPEAK_COMPLETE \<Rightarrow>
          if truthy_str (day ctx) then Inr (Some (Some AskFullDay, []))
          else Inr (Some (Some AskDay, []))
      | _ \<Rightarrow> Inr None)"
| "transition AskFullDay e ctx =
     (case e of
        SPEAK_COMPLETE \<Rightarrow> Inr (Some (Some ListenFullDay, []))
      | _ \<Rightarrow> Inr None)"
| "transition ListenFullDay e ctx =
     (case e of
        RECOGNISED v \<Rightarrow> Inr (Some (None, [RecognisedFullDay v]))
      | LISTEN_COMPLETE \<Rightarrow>
          if yesno ctx \<noteq> Undefined then Inr (Some (Some CheckFullDay, []))
          else Inr (Some (Some AskFullDay, []))
      | ASR_NOINPUT \<Rightarrow> Inr (Some (Some AskFullDay, [LastResultNull]))
      | _ \<Rightarrow> Inr None)"
| "transition CheckFullDay e ctx =
     (case e of
        SPEAK_COMPLETE \<Rightarrow>
          if yesno ctx = Val True then Inr (Some (Some ConfirmAppointment, []))
          else if yesno ctx = Val False then Inr (Some (Some AskTime, []))
          else Inr (Some (Some AskFullDay, []))
      | _ \<Rightarrow> Inr None)"
| "transition AskTime e ctx =
     (case e of
        SPEAK_COMPLETE \<Rightarrow> Inr (Some (Some ListenTime, []))
      | _ \<Rightarrow> Inr None)"
| "transition ListenTime e ctx =
     (case e of
        RECOGNISED v \<Rightarrow> Inr (Some (None, [RecognisedTime v]))
      | LISTEN_COMPLETE \<Rightarrow>
          if neq_null (Val (truthy_str (time ctx))) then Inr (Some (Some CheckTime, []))
          else Inr (Some (Some AskTime, []))
      | ASR_NOINPUT \<Rightarrow> Inr (Some (None, [LastResultNull]))
      | _ \<Rightarrow> Inr None)"
| "transition CheckTime e ctx =
     (case e of
        SPEAK_COMPLETE \<Rightarrow>
          if truthy_str (time ctx) then Inr (Some (Some ConfirmAppointment, []))
          else Inr (Some (Some AskTime, []))
      | _ \<Rightarrow> Inr None)"
| "transition ConfirmAppointment e ctx =
     (case e of
        SPEAK_COMPLETE \<Rightarrow> Inr (Some (Some ListenConfirm, []))
      | _ \<Rightarrow> Inr None)"
| "transition ListenConfirm e ctx =
     (case e of
        RECOGNISED v \<Rightarrow> Inr (Some (None, [RecognisedConfirm v]))
      | LISTEN_COMPLETE \<Rightarrow>
          if neq_null (Val (truthy_bool (yesno ctx))) then Inr (Some (Some CheckConfirmation, []))
          else Inr (Some (Some ConfirmAppointment, []))
      | ASR_NOINPUT \<Rightarrow> Inr (Some (Some ConfirmAppointment, [LastResultNull]))
      | _ \<Rightarrow> Inr None)"
| "transition CheckConfirmation e ctx =
     (case e of
        SPEAK_COMPLETE \<Rightarrow>
          (case last_utterance (lastResult ctx) of
             Inl err \<Rightarrow> Inl err
           | Inr u \<Rightarrow>
               if getConfirm u = Val True then Inr (Some (Some Greeting, []))
               else if getConfirm u = Val False then Inr (Some (Some Greeting, []))
               else Inr (Some (Some Greeting, [])))
      | _ \<Rightarrow> Inr None)"
| "transition Done e ctx =
     (case e of
        CLICK \<Rightarrow> Inr (Some (Some Greeting, []))
      | _ \<Rightarrow> Inr None)"
| "transition New_state_1 e ctx = Inr None"

text \<open>
  One event: the exit actions of the source state, the actions of the transition and the
  entry action of the target, in this order. A transition without a target leaves and
  enters no state. An exception in a guard or in an action stops the actor, which is the
  result \<open>Inl\<close>.
\<close>

definition step :: "snapshot \<Rightarrow> dm_event \<Rightarrow> error + (snapshot \<times> directive list)" where
  "step snap e =
     (case snap of (s, ctx) \<Rightarrow>
        (case transition s e ctx of
           Inl err \<Rightarrow> Inl err
         | Inr None \<Rightarrow> Inr ((s, ctx), [])
         | Inr (Some (None, acts)) \<Rightarrow>
             (case assign_all acts ctx of
                Inl err \<Rightarrow> Inl err
              | Inr ctx' \<Rightarrow> Inr ((s, ctx'), []))
         | Inr (Some (Some t, acts)) \<Rightarrow>
             (case assign_all (exit_actions s @ acts) ctx of
                Inl err \<Rightarrow> Inl err
              | Inr ctx' \<Rightarrow>
                  (case entry t ctx' of
                     Inl err \<Rightarrow> Inl err
                   | Inr ds \<Rightarrow> Inr ((t, ctx'), ds)))))"

text \<open>The machine starts in \<open>Prepare\<close>, whose entry action has run.\<close>

definition initial_snapshot :: snapshot where
  "initial_snapshot = (Prepare, initial_context)"

text \<open>A sequence of events: the last snapshot and every directive sent on the way.\<close>

fun run :: "snapshot \<Rightarrow> dm_event list \<Rightarrow> error + (snapshot \<times> directive list)" where
  "run snap [] = Inr (snap, [])"
| "run snap (e # es) =
     (case step snap e of
        Inl err \<Rightarrow> Inl err
      | Inr (snap', ds) \<Rightarrow>
          (case run snap' es of
             Inl err \<Rightarrow> Inl err
           | Inr (snap'', ds') \<Rightarrow> Inr (snap'', ds @ ds')))"

text \<open>The states the machine is in after each event of a sequence, up to an exception.\<close>

fun visited :: "snapshot \<Rightarrow> dm_event list \<Rightarrow> dm_state list" where
  "visited snap [] = []"
| "visited snap (e # es) =
     (case step snap e of
        Inl err \<Rightarrow> []
      | Inr (snap', ds) \<Rightarrow> fst snap' # visited snap' es)"


section \<open>Scenarios and runs\<close>

text \<open>The event of a recognition with a single hypothesis.\<close>

definition recognised :: "string \<Rightarrow> dm_event" where
  "recognised u = RECOGNISED [\<lparr>utterance = u, confidence = 1\<rparr>]"

text \<open>The states of a run up to the first time it is in \<open>ConfirmAppointment\<close>.\<close>

definition until_confirm :: "dm_state list \<Rightarrow> dm_state list" where
  "until_confirm ss = takeWhile (\<lambda>s. s \<noteq> ConfirmAppointment) ss"

text \<open>
  The event contract of the speech actor: a listen yields one \<open>RECOGNISED\<close>, with at
  least one hypothesis, or one \<open>ASR_NOINPUT\<close>, and a \<open>LISTEN_COMPLETE\<close> follows it,
  at once or after other events; \<open>LISTEN_COMPLETE\<close> occurs nowhere else, and no second
  outcome comes before it. The flag says that an outcome waits for its
  \<open>LISTEN_COMPLETE\<close>. A sequence may stop while one waits.
\<close>

fun contract_from :: "bool \<Rightarrow> dm_event list \<Rightarrow> bool" where
  "contract_from pending [] = True"
| "contract_from pending (e # es) =
     (case e of
        RECOGNISED v \<Rightarrow> \<not> pending \<and> v \<noteq> [] \<and> contract_from True es
      | ASR_NOINPUT \<Rightarrow> \<not> pending \<and> contract_from True es
      | LISTEN_COMPLETE \<Rightarrow> pending \<and> contract_from False es
      | _ \<Rightarrow> contract_from pending es)"

definition adapter_contract :: "dm_event list \<Rightarrow> bool" where
  "adapter_contract es = contract_from False es"

text \<open>
  The sequences of the contract in which \<open>LISTEN_COMPLETE\<close> is the very next event after
  the outcome of the listen.
\<close>

fun immediate_completion :: "dm_event list \<Rightarrow> bool" where
  "immediate_completion [] = True"
| "immediate_completion (e # es) =
     (case e of
        RECOGNISED v \<Rightarrow>
          v \<noteq> [] \<and>
          (case es of [] \<Rightarrow> True | e' # es' \<Rightarrow> e' = LISTEN_COMPLETE \<and> immediate_completion es')
      | ASR_NOINPUT \<Rightarrow>
          (case es of [] \<Rightarrow> True | e' # es' \<Rightarrow> e' = LISTEN_COMPLETE \<and> immediate_completion es')
      | LISTEN_COMPLETE \<Rightarrow> False
      | _ \<Rightarrow> immediate_completion es)"


section \<open>The vocabulary resolver\<close>

lemma lower_char_idem: "lower_char (lower_char c) = lower_char c"
  by (simp add: lower_char_def)

lemma toLowerCase_idem: "toLowerCase (toLowerCase u) = toLowerCase u"
  by (simp add: toLowerCase_def lower_char_idem)

lemmas resolve =
  getPerson_def getNumber_def getFullDay_def getTime_def getConfirm_def
  getPerson_with_def getNumber_with_def getFullDay_with_def getTime_with_def getConfirm_with_def
  lookup_field_def grammar_def toLowerCase_def lower_char_def
  person_entry_def day_entry_def time_entry_def yesno_entry_def




section \<open>Single steps\<close>

text \<open>
  C4: on \<open>ASR_NOINPUT\<close> the three value slots clear \<open>lastResult\<close> and stay in their
  Listen state, without a directive; \<open>ListenFullDay\<close> and \<open>ListenConfirm\<close> clear it
  and go back to \<open>AskFullDay\<close> and to \<open>ConfirmAppointment\<close> at once, which speak
  their prompt again.
\<close>

theorem no_input_reprompt:
  "step (ListenPerson, ctx) ASR_NOINPUT = Inr ((ListenPerson, ctx\<lparr>lastResult := Null\<rparr>), [])
   \<and> step (ListenDay, ctx) ASR_NOINPUT = Inr ((ListenDay, ctx\<lparr>lastResult := Null\<rparr>), [])
   \<and> step (ListenTime, ctx) ASR_NOINPUT = Inr ((ListenTime, ctx\<lparr>lastResult := Null\<rparr>), [])
   \<and> step (ListenFullDay, ctx) ASR_NOINPUT =
       Inr ((AskFullDay, ctx\<lparr>lastResult := Null\<rparr>), [SPEAK ''Will it take the whole day?''])
   \<and> step (ListenConfirm, ctx) ASR_NOINPUT =
       Inr ((ConfirmAppointment, ctx\<lparr>lastResult := Null\<rparr>),
            [SPEAK (UttConfirm (ctx\<lparr>lastResult := Null\<rparr>))])"
  by (simp add: step_def)

text \<open>C4 at the initial context, in \<open>ListenDay\<close> and in \<open>ListenFullDay\<close>.\<close>

theorem no_input_reprompt_witness:
  "step (ListenDay, initial_context) ASR_NOINPUT = Inr ((ListenDay, initial_context), [])
   \<and> step (ListenFullDay, initial_context) ASR_NOINPUT =
       Inr ((AskFullDay, initial_context), [SPEAK ''Will it take the whole day?''])"
  using no_input_reprompt [of initial_context]
  by (simp add: initial_context_def)

text \<open>
  C5: on \<open>SPEAK_COMPLETE\<close> in \<open>CheckFullDay\<close> the machine goes to
  \<open>ConfirmAppointment\<close> when the flag is true, to \<open>AskTime\<close> when it is false, and
  back to \<open>AskFullDay\<close> when it is neither.
\<close>

theorem check_full_day_branches:
  "step (CheckFullDay, ctx) SPEAK_COMPLETE =
     (if yesno ctx = Val True then Inr ((ConfirmAppointment, ctx), [SPEAK (UttConfirm ctx)])
      else if yesno ctx = Val False then Inr ((AskTime, ctx), [SPEAK ''What time is your meeting?''])
      else Inr ((AskFullDay, ctx), [SPEAK ''Will it take the whole day?'']))"
  by (simp add: step_def)

text \<open>C5 at the flag true, false and \<^verbatim>\<open>null\<close>.\<close>

theorem check_full_day_branches_witness:
  "step (CheckFullDay, initial_context\<lparr>yesno := Val True\<rparr>) SPEAK_COMPLETE =
     Inr ((ConfirmAppointment, initial_context\<lparr>yesno := Val True\<rparr>),
          [SPEAK ''Do you want me to create an appointment with null on null for the whole day?''])
   \<and> step (CheckFullDay, initial_context\<lparr>yesno := Val False\<rparr>) SPEAK_COMPLETE =
       Inr ((AskTime, initial_context\<lparr>yesno := Val False\<rparr>), [SPEAK ''What time is your meeting?''])
   \<and> step (CheckFullDay, initial_context) SPEAK_COMPLETE =
       Inr ((AskFullDay, initial_context), [SPEAK ''Will it take the whole day?''])"
  using check_full_day_branches [of "initial_context\<lparr>yesno := Val True\<rparr>"]
    check_full_day_branches [of "initial_context\<lparr>yesno := Val False\<rparr>"]
    check_full_day_branches [of initial_context]
  by (simp add: initial_context_def UttConfirm_def)

text \<open>
  C1, as the code has it: with the slot still \<^verbatim>\<open>null\<close>, \<open>LISTEN_COMPLETE\<close> sends
  \<open>ListenPerson\<close> back to \<open>AskPerson\<close>, but \<open>ListenDay\<close>, \<open>ListenFullDay\<close>,
  \<open>ListenTime\<close> and \<open>ListenConfirm\<close> on to their Check state: the guards
  \<^verbatim>\<open>!!context.day != null\<close>, \<^verbatim>\<open>!!context.time != null\<close> and
  \<^verbatim>\<open>!!context.yesno != null\<close> compare a boolean with \<^verbatim>\<open>null\<close>, and
  \<^verbatim>\<open>context.yesno !== undefined\<close> holds of \<^verbatim>\<open>null\<close>. The last line is a run
  from the start of the machine in which ``banana'' is heard in \<open>ListenDay\<close>.
\<close>

theorem listen_complete_with_absent_slot:
  "step (ListenPerson, ctx\<lparr>person := Null\<rparr>) LISTEN_COMPLETE =
     Inr ((AskPerson, ctx\<lparr>person := Null\<rparr>), [SPEAK ''Who are you meeting with?''])
   \<and> step (ListenDay, ctx\<lparr>day := Null\<rparr>) LISTEN_COMPLETE =
       Inr ((CheckDay, ctx\<lparr>day := Null\<rparr>), [SPEAK ''I did't understand the day''])
   \<and> step (ListenFullDay, ctx\<lparr>yesno := Null\<rparr>) LISTEN_COMPLETE =
       Inr ((CheckFullDay, ctx\<lparr>yesno := Null\<rparr>), [SPEAK ''Ok, the meeting will not be the whole day.''])
   \<and> step (ListenTime, ctx\<lparr>time := Null\<rparr>) LISTEN_COMPLETE =
       Inr ((CheckTime, ctx\<lparr>time := Null\<rparr>), [SPEAK ''I did not understand the time.''])
   \<and> step (ListenConfirm,
            ctx\<lparr>yesno := Null, lastResult := Val [\<lparr>utterance = ''yes'', confidence = 1\<rparr>]\<rparr>)
         LISTEN_COMPLETE =
       Inr ((CheckConfirmation,
             ctx\<lparr>yesno := Null, lastResult := Val [\<lparr>utterance = ''yes'', confidence = 1\<rparr>]\<rparr>),
            [SPEAK ''Your appointment has been created!''])
   \<and> visited initial_snapshot
         [ASRTTS_READY, CLICK, SPEAK_COMPLETE, SPEAK_COMPLETE, recognised ''Vlad'', LISTEN_COMPLETE,
          SPEAK_COMPLETE, SPEAK_COMPLETE, recognised ''banana'', LISTEN_COMPLETE]
       = [WaitToStart, Greeting, AskPerson, ListenPerson, ListenPerson, CheckPerson,
          AskDay, ListenDay, ListenDay, CheckDay]"
  by (simp add: step_def resolve initial_snapshot_def initial_context_def recognised_def)

lemma step_CheckConfirmation_speak:
  "lastResult ctx = Val (h # hs) \<Longrightarrow>
   step (CheckConfirmation, ctx) SPEAK_COMPLETE =
     Inr ((Greeting,
           ctx\<lparr>lastResult := Null, person := Null, day := Null, time := Null, yesno := Null\<rparr>),
          [SPEAK ''Hi, let's create an appointment''])"
  by (simp add: step_def)

lemma step_CheckConfirmation_leave:
  "step (CheckConfirmation, ctx) e = Inr ((s', ctx'), ds) \<Longrightarrow> s' \<noteq> CheckConfirmation \<Longrightarrow>
   s' = Greeting
   \<and> ctx' = ctx\<lparr>lastResult := Null, person := Null, day := Null, time := Null, yesno := Null\<rparr>"
  by (cases e) (auto simp: step_def split: sum.splits if_splits)

text \<open>
  C3: when \<open>lastResult\<close> holds a hypothesis, \<open>SPEAK_COMPLETE\<close> takes
  \<open>CheckConfirmation\<close> to \<open>Greeting\<close> with the five fields \<^verbatim>\<open>null\<close>, whatever the
  utterance resolves to (true, false or nothing); and every step that leaves
  \<open>CheckConfirmation\<close> ends in \<open>Greeting\<close> with the five fields \<^verbatim>\<open>null\<close>.
\<close>

theorem check_confirmation_exit_resets:
  "(lastResult ctx = Val (h # hs) \<longrightarrow>
      step (CheckConfirmation, ctx) SPEAK_COMPLETE =
        Inr ((Greeting,
              ctx\<lparr>lastResult := Null, person := Null, day := Null, time := Null, yesno := Null\<rparr>),
             [SPEAK ''Hi, let's create an appointment'']))
   \<and> (\<forall>e s' ctx' ds.
         step (CheckConfirmation, ctx) e = Inr ((s', ctx'), ds) \<and> s' \<noteq> CheckConfirmation \<longrightarrow>
         s' = Greeting \<and> lastResult ctx' = Null \<and> person ctx' = Null \<and> day ctx' = Null
         \<and> yesno ctx' = Null \<and> time ctx' = Null)"
  using step_CheckConfirmation_speak step_CheckConfirmation_leave by fastforce

text \<open>
  C3 at the three branches: after ``yes'', after ``no'' and after ``banana'', the step
  out of \<open>CheckConfirmation\<close> gives the initial context in \<open>Greeting\<close>.
\<close>

theorem check_confirmation_exit_resets_witness:
  "step (CheckConfirmation,
         \<lparr>lastResult = Val [\<lparr>utterance = ''yes'', confidence = 1\<rparr>], person = Val ''Lou Reed'',
          day = Val ''Friday'', yesno = Val True, time = Null\<rparr>) SPEAK_COMPLETE
     = Inr ((Greeting, initial_context), [SPEAK ''Hi, let's create an appointment''])
   \<and> step (CheckConfirmation,
         \<lparr>lastResult = Val [\<lparr>utterance = ''no'', confidence = 1\<rparr>], person = Val ''Lou Reed'',
          day = Val ''Friday'', yesno = Val True, time = Null\<rparr>) SPEAK_COMPLETE
     = Inr ((Greeting, initial_context), [SPEAK ''Hi, let's create an appointment''])
   \<and> step (CheckConfirmation,
         \<lparr>lastResult = Val [\<lparr>utterance = ''banana'', confidence = 1\<rparr>], person = Val ''Lou Reed'',
          day = Val ''Friday'', yesno = Val True, time = Null\<rparr>) SPEAK_COMPLETE
     = Inr ((Greeting, initial_context), [SPEAK ''Hi, let's create an appointment''])"
  using
    check_confirmation_exit_resets [of
      "\<lparr>lastResult = Val [\<lparr>utterance = ''yes'', confidence = 1\<rparr>], person = Val ''Lou Reed'',
        day = Val ''Friday'', yesno = Val True, time = Null\<rparr>"
      "\<lparr>utterance = ''yes'', confidence = 1\<rparr>" "[]"]
    check_confirmation_exit_resets [of
      "\<lparr>lastResult = Val [\<lparr>utterance = ''no'', confidence = 1\<rparr>], person = Val ''Lou Reed'',
        day = Val ''Friday'', yesno = Val True, time = Null\<rparr>"
      "\<lparr>utterance = ''no'', confidence = 1\<rparr>" "[]"]
    check_confirmation_exit_resets [of
      "\<lparr>lastResult = Val [\<lparr>utterance = ''banana'', confidence = 1\<rparr>], person = Val ''Lou Reed'',
        day = Val ''Friday'', yesno = Val True, time = Null\<rparr>"
      "\<lparr>utterance = ''banana'', confidence = 1\<rparr>" "[]"]
  by (simp add: initial_context_def)

lemma getPerson_banana: "getPerson ''banana'' = Undefined"
  by (simp add: resolve)

text \<open>
  C2, as stated, fails: after ``banana'' and \<open>LISTEN_COMPLETE\<close> the machine is in
  \<open>AskPerson\<close> and has sent the prompt of \<open>AskPerson\<close> only; it has not been in
  \<open>CheckPerson\<close>.
\<close>

theorem banana_skips_check_person:
  "run (ListenPerson, initial_context) [recognised ''banana'', LISTEN_COMPLETE]
     = Inr ((AskPerson,
             initial_context\<lparr>lastResult := Val [\<lparr>utterance = ''banana'', confidence = 1\<rparr>]\<rparr>),
            [SPEAK ''Who are you meeting with?''])
   \<and> CheckPerson \<notin> set (visited (ListenPerson, initial_context)
                          [recognised ''banana'', LISTEN_COMPLETE])"
  by (simp add: step_def initial_context_def recognised_def resolve)

text \<open>
  C2, amended: with \<open>person\<close> \<^verbatim>\<open>null\<close>, the utterance ``banana'' and
  \<open>LISTEN_COMPLETE\<close> leave \<open>person\<close> as it is and take \<open>ListenPerson\<close> straight back
  to \<open>AskPerson\<close>; \<open>CheckPerson\<close>, entered with \<open>person\<close> \<^verbatim>\<open>null\<close>, speaks
  ``I didn't understand the person's name.'' and goes to \<open>AskPerson\<close> on
  \<open>SPEAK_COMPLETE\<close>.
\<close>

theorem unresolved_person_reprompts:
  assumes "person ctx = Null" and "utterance h = ''banana''"
  shows "run (ListenPerson, ctx) [RECOGNISED (h # hs), LISTEN_COMPLETE]
           = Inr ((AskPerson, ctx\<lparr>lastResult := Val (h # hs)\<rparr>),
                  [SPEAK ''Who are you meeting with?''])
     \<and> person (ctx\<lparr>lastResult := Val (h # hs)\<rparr>) = Null
     \<and> entry CheckPerson ctx = Inr [SPEAK ''I didn't understand the person's name.'']
     \<and> step (CheckPerson, ctx) SPEAK_COMPLETE
           = Inr ((AskPerson, ctx), [SPEAK ''Who are you meeting with?''])"
  using assms by (simp add: step_def getPerson_banana)

text \<open>C2, amended, at the initial context.\<close>

theorem unresolved_person_reprompts_witness:
  "person initial_context = Null
   \<and> utterance \<lparr>utterance = ''banana'', confidence = 1\<rparr> = ''banana''
   \<and> run (ListenPerson, initial_context)
         [RECOGNISED [\<lparr>utterance = ''banana'', confidence = 1\<rparr>], LISTEN_COMPLETE]
       = Inr ((AskPerson,
               initial_context\<lparr>lastResult := Val [\<lparr>utterance = ''banana'', confidence = 1\<rparr>]\<rparr>),
              [SPEAK ''Who are you meeting with?''])
   \<and> entry CheckPerson initial_context = Inr [SPEAK ''I didn't understand the person's name.'']
   \<and> step (CheckPerson, initial_context) SPEAK_COMPLETE
       = Inr ((AskPerson, initial_context), [SPEAK ''Who are you meeting with?''])"
  using unresolved_person_reprompts
    [of initial_context "\<lparr>utterance = ''banana'', confidence = 1\<rparr>" "[]"]
  by (simp add: initial_context_def)

text \<open>
  C8: a step changes \<open>person\<close> only by a \<open>RECOGNISED\<close> event in \<open>ListenPerson\<close> whose
  first hypothesis resolves to a person, which is the new value, or by the reset on
  leaving \<open>CheckConfirmation\<close>; and the same for \<open>day\<close> in \<open>ListenDay\<close>, for
  \<open>yesno\<close> in \<open>ListenFullDay\<close> and for \<open>time\<close> in \<open>ListenTime\<close>. So a
  recognition in one Listen state leaves the slots of the others as they are.
\<close>

theorem slot_changes_only_in_its_listen_state:
  assumes "step (s, ctx) e = Inr ((s', ctx'), ds)"
  shows
    "(person ctx' \<noteq> person ctx \<longrightarrow>
        (s = ListenPerson
         \<and> (\<exists>h hs. e = RECOGNISED (h # hs) \<and> person ctx' = getPerson (utterance h)
               \<and> truthy_str (person ctx')))
        \<or> (s = CheckConfirmation \<and> e = SPEAK_COMPLETE
            \<and> ctx' = ctx\<lparr>lastResult := Null, person := Null, day := Null, time := Null,
                        yesno := Null\<rparr>))
     \<and> (day ctx' \<noteq> day ctx \<longrightarrow>
        (s = ListenDay
         \<and> (\<exists>h hs. e = RECOGNISED (h # hs) \<and> day ctx' = getNumber (utterance h)
               \<and> truthy_str (day ctx')))
        \<or> (s = CheckConfirmation \<and> e = SPEAK_COMPLETE
            \<and> ctx' = ctx\<lparr>lastResult := Null, person := Null, day := Null, time := Null,
                        yesno := Null\<rparr>))
     \<and> (yesno ctx' \<noteq> yesno ctx \<longrightarrow>
        (s = ListenFullDay
         \<and> (\<exists>h hs. e = RECOGNISED (h # hs) \<and> yesno ctx' = getConfirm (utterance h)
               \<and> yesno ctx' \<noteq> Undefined))
        \<or> (s = CheckConfirmation \<and> e = SPEAK_COMPLETE
            \<and> ctx' = ctx\<lparr>lastResult := Null, person := Null, day := Null, time := Null,
                        yesno := Null\<rparr>))
     \<and> (time ctx' \<noteq> time ctx \<longrightarrow>
        (s = ListenTime
         \<and> (\<exists>h hs. e = RECOGNISED (h # hs) \<and> time ctx' = getTime (utterance h)
               \<and> truthy_str (time ctx')))
        \<or> (s = CheckConfirmation \<and> e = SPEAK_COMPLETE
            \<and> ctx' = ctx\<lparr>lastResult := Null, person := Null, day := Null, time := Null,
                        yesno := Null\<rparr>))"
  using assms
  by (cases s; cases e)
    (auto simp: step_def Let_def split: sum.splits if_splits list.splits
      elim!: first_utterance.elims)

text \<open>
  C8 at a recognition of ``Vlad'' in \<open>ListenPerson\<close> with the day already set: the
  person is written and the day is kept.
\<close>

theorem slot_changes_only_in_its_listen_state_witness:
  "step (ListenPerson, initial_context\<lparr>day := Val ''Monday''\<rparr>) (recognised ''Vlad'')
     = Inr ((ListenPerson,
             \<lparr>lastResult = Val [\<lparr>utterance = ''Vlad'', confidence = 1\<rparr>],
              person = Val ''Vladislav Maraev'', day = Val ''Monday'', yesno = Null, time = Null\<rparr>),
            [])
   \<and> getPerson ''Vlad'' = Val ''Vladislav Maraev''"
  using slot_changes_only_in_its_listen_state
    [of ListenPerson "initial_context\<lparr>day := Val ''Monday''\<rparr>" "recognised ''Vlad''" ListenPerson
      "\<lparr>lastResult = Val [\<lparr>utterance = ''Vlad'', confidence = 1\<rparr>],
        person = Val ''Vladislav Maraev'', day = Val ''Monday'', yesno = Null, time = Null\<rparr>" "[]"]
  by (simp add: step_def initial_context_def recognised_def resolve)


section \<open>Runs\<close>

text \<open>
  C7: the happy path. From \<open>Greeting\<close> the twenty events lead through the slot states
  to \<open>CheckConfirmation\<close>, whose entry speaks ``Your appointment has been created!'',
  and \<open>SPEAK_COMPLETE\<close> then gives \<open>Greeting\<close> with the initial context.
\<close>

theorem happy_path_scenario:
  "run (Greeting, initial_context)
     [SPEAK_COMPLETE, SPEAK_COMPLETE, recognised ''Vlad'', LISTEN_COMPLETE,
      SPEAK_COMPLETE, SPEAK_COMPLETE, recognised ''Monday'', LISTEN_COMPLETE,
      SPEAK_COMPLETE, SPEAK_COMPLETE, recognised ''no'', LISTEN_COMPLETE,
      SPEAK_COMPLETE, SPEAK_COMPLETE, recognised ''14'', LISTEN_COMPLETE,
      SPEAK_COMPLETE, SPEAK_COMPLETE, recognised ''yes'', LISTEN_COMPLETE]
   = Inr ((CheckConfirmation,
           \<lparr>lastResult = Val [\<lparr>utterance = ''yes'', confidence = 1\<rparr>],
            person = Val ''Vladislav Maraev'', day = Val ''Monday'', yesno = Val False,
            time = Val ''14:00''\<rparr>),
          [SPEAK ''Who are you meeting with?'', LISTEN,
           SPEAK ''You will meet Vladislav Maraev.'',
           SPEAK ''Which day do you want the meeting?'', LISTEN,
           SPEAK ''The day will be Monday.'',
           SPEAK ''Will it take the whole day?'', LISTEN,
           SPEAK ''Ok, the meeting will not be the whole day.'',
           SPEAK ''What time is your meeting?'', LISTEN,
           SPEAK ''You will meet at 14:00.'',
           SPEAK ''Do you want me to create an appointment with Vladislav Maraev on Monday at 14:00?'',
           LISTEN,
           SPEAK ''Your appointment has been created!''])
   \<and> visited (Greeting, initial_context)
       [SPEAK_COMPLETE, SPEAK_COMPLETE, recognised ''Vlad'', LISTEN_COMPLETE,
        SPEAK_COMPLETE, SPEAK_COMPLETE, recognised ''Monday'', LISTEN_COMPLETE,
        SPEAK_COMPLETE, SPEAK_COMPLETE, recognised ''no'', LISTEN_COMPLETE,
        SPEAK_COMPLETE, SPEAK_COMPLETE, recognised ''14'', LISTEN_COMPLETE,
        SPEAK_COMPLETE, SPEAK_COMPLETE, recognised ''yes'', LISTEN_COMPLETE]
     = [AskPerson, ListenPerson, ListenPerson, CheckPerson, AskDay, ListenDay,
        ListenDay, CheckDay, AskFullDay, ListenFullDay, ListenFullDay,
        CheckFullDay, AskTime, ListenTime, ListenTime, CheckTime,
        ConfirmAppointment, ListenConfirm, ListenConfirm, CheckConfirmation]
   \<and> step (CheckConfirmation,
           \<lparr>lastResult = Val [\<lparr>utterance = ''yes'', confidence = 1\<rparr>],
            person = Val ''Vladislav Maraev'', day = Val ''Monday'', yesno = Val False,
            time = Val ''14:00''\<rparr>) SPEAK_COMPLETE
     = Inr ((Greeting, initial_context), [SPEAK ''Hi, let's create an appointment''])"
  by (simp add: step_def initial_context_def recognised_def resolve UttConfirm_def)


subsection \<open>The branch around the time slot\<close>

lemma step_CheckFullDay_whole:
  "yesno ctx = Val True \<Longrightarrow>
   step (CheckFullDay, ctx) e =
     (if e = SPEAK_COMPLETE then Inr ((ConfirmAppointment, ctx), [SPEAK (UttConfirm ctx)])
      else Inr ((CheckFullDay, ctx), []))"
  by (cases e) (simp_all add: step_def)

lemma step_CheckFullDay_part:
  "yesno ctx = Val False \<Longrightarrow>
   step (CheckFullDay, ctx) e =
     (if e = SPEAK_COMPLETE then Inr ((AskTime, ctx), [SPEAK ''What time is your meeting?''])
      else Inr ((CheckFullDay, ctx), []))"
  by (cases e) (simp_all add: step_def)

lemma step_AskTime:
  "step (AskTime, ctx) e =
     (if e = SPEAK_COMPLETE then Inr ((ListenTime, ctx), [LISTEN]) else Inr ((AskTime, ctx), []))"
  by (cases e) (simp_all add: step_def)

lemma step_ListenTime:
  "step (ListenTime, ctx) e = Inr ((s', ctx'), ds) \<Longrightarrow>
     (s' = ListenTime \<and> e \<noteq> LISTEN_COMPLETE) \<or> (s' = CheckTime \<and> e = LISTEN_COMPLETE)"
  by (cases e) (auto simp: step_def split: sum.splits)

lemma whole_day_skips_time:
  "yesno ctx = Val True \<Longrightarrow> set (until_confirm (visited (CheckFullDay, ctx) es)) \<subseteq> {CheckFullDay}"
proof (induction es)
  case Nil
  then show ?case by (simp add: until_confirm_def)
next
  case (Cons e es)
  then show ?case
    by (cases "e = SPEAK_COMPLETE") (simp_all add: step_CheckFullDay_whole until_confirm_def)
qed

lemma listen_time_before_confirm:
  "ConfirmAppointment \<in> set (visited (ListenTime, ctx) es) \<Longrightarrow>
   CheckTime \<in> set (until_confirm (visited (ListenTime, ctx) es))"
proof (induction es arbitrary: ctx)
  case Nil
  then show ?case by simp
next
  case (Cons e es)
  show ?case
  proof (cases "step (ListenTime, ctx) e")
    case (Inl err)
    with Cons.prems show ?thesis by simp
  next
    case (Inr r)
    obtain s' ctx' ds where "r = ((s', ctx'), ds)" by (metis prod.collapse)
    with Inr have st: "step (ListenTime, ctx) e = Inr ((s', ctx'), ds)" by simp
    from step_ListenTime [OF st] show ?thesis
    proof
      assume stay: "s' = ListenTime \<and> e \<noteq> LISTEN_COMPLETE"
      with Cons.prems st have "ConfirmAppointment \<in> set (visited (ListenTime, ctx') es)" by simp
      from Cons.IH [OF this] stay st show ?thesis by (simp add: until_confirm_def)
    next
      assume "s' = CheckTime \<and> e = LISTEN_COMPLETE"
      with st show ?thesis by (simp add: until_confirm_def)
    qed
  qed
qed

lemma ask_time_before_confirm:
  "ConfirmAppointment \<in> set (visited (AskTime, ctx) es) \<Longrightarrow>
   ListenTime \<in> set (until_confirm (visited (AskTime, ctx) es))
   \<and> CheckTime \<in> set (until_confirm (visited (AskTime, ctx) es))"
proof (induction es)
  case Nil
  then show ?case by simp
next
  case (Cons e es)
  show ?case
  proof (cases "e = SPEAK_COMPLETE")
    case True
    with Cons.prems have "ConfirmAppointment \<in> set (visited (ListenTime, ctx) es)"
      by (simp add: step_AskTime)
    from listen_time_before_confirm [OF this] True show ?thesis
      by (simp add: step_AskTime until_confirm_def)
  next
    case False
    with Cons show ?thesis by (simp add: step_AskTime until_confirm_def)
  qed
qed

lemma part_day_asks_time:
  "yesno ctx = Val False \<Longrightarrow> ConfirmAppointment \<in> set (visited (CheckFullDay, ctx) es) \<Longrightarrow>
   AskTime \<in> set (until_confirm (visited (CheckFullDay, ctx) es))
   \<and> ListenTime \<in> set (until_confirm (visited (CheckFullDay, ctx) es))
   \<and> CheckTime \<in> set (until_confirm (visited (CheckFullDay, ctx) es))"
proof (induction es)
  case Nil
  then show ?case by simp
next
  case (Cons e es)
  show ?case
  proof (cases "e = SPEAK_COMPLETE")
    case True
    with Cons.prems have "ConfirmAppointment \<in> set (visited (AskTime, ctx) es)"
      by (simp add: step_CheckFullDay_part)
    from ask_time_before_confirm [OF this] True Cons.prems(1) show ?thesis
      by (simp add: step_CheckFullDay_part until_confirm_def)
  next
    case False
    with Cons show ?thesis by (simp add: step_CheckFullDay_part until_confirm_def)
  qed
qed

text \<open>
  C6: take any sequence of events from \<open>CheckFullDay\<close>. When the flag is true, the
  machine is in none of \<open>AskTime\<close>, \<open>ListenTime\<close>, \<open>CheckTime\<close> before it is in
  \<open>ConfirmAppointment\<close>. When the flag is false and the machine gets to
  \<open>ConfirmAppointment\<close>, it has been in all three of them before.
\<close>

theorem whole_day_branch_exclusive:
  "(yesno ctx = Val True \<longrightarrow>
      AskTime \<notin> set (until_confirm (visited (CheckFullDay, ctx) es))
      \<and> ListenTime \<notin> set (until_confirm (visited (CheckFullDay, ctx) es))
      \<and> CheckTime \<notin> set (until_confirm (visited (CheckFullDay, ctx) es)))
   \<and> (yesno ctx = Val False \<and> ConfirmAppointment \<in> set (visited (CheckFullDay, ctx) es) \<longrightarrow>
      AskTime \<in> set (until_confirm (visited (CheckFullDay, ctx) es))
      \<and> ListenTime \<in> set (until_confirm (visited (CheckFullDay, ctx) es))
      \<and> CheckTime \<in> set (until_confirm (visited (CheckFullDay, ctx) es)))"
proof (intro conjI impI)
  assume whole: "yesno ctx = Val True"
  from whole_day_skips_time [OF whole, of es]
  show "AskTime \<notin> set (until_confirm (visited (CheckFullDay, ctx) es))"
    and "ListenTime \<notin> set (until_confirm (visited (CheckFullDay, ctx) es))"
    and "CheckTime \<notin> set (until_confirm (visited (CheckFullDay, ctx) es))"
    by auto
next
  assume "yesno ctx = Val False \<and> ConfirmAppointment \<in> set (visited (CheckFullDay, ctx) es)"
  with part_day_asks_time [of ctx es]
  show "AskTime \<in> set (until_confirm (visited (CheckFullDay, ctx) es))"
    and "ListenTime \<in> set (until_confirm (visited (CheckFullDay, ctx) es))"
    and "CheckTime \<in> set (until_confirm (visited (CheckFullDay, ctx) es))"
    by simp_all
qed

text \<open>
  C6 on two runs from \<open>CheckFullDay\<close>: with the flag true the run is in
  \<open>ConfirmAppointment\<close> after one event; with the flag false it gets there through the
  three time states.
\<close>

theorem whole_day_branch_exclusive_witness:
  "yesno (initial_context\<lparr>yesno := Val True\<rparr>) = Val True
   \<and> visited (CheckFullDay, initial_context\<lparr>yesno := Val True\<rparr>) [SPEAK_COMPLETE, SPEAK_COMPLETE]
       = [ConfirmAppointment, ListenConfirm]
   \<and> AskTime \<notin> set (until_confirm (visited (CheckFullDay, initial_context\<lparr>yesno := Val True\<rparr>)
                                      [SPEAK_COMPLETE, SPEAK_COMPLETE]))
   \<and> yesno (initial_context\<lparr>yesno := Val False\<rparr>) = Val False
   \<and> visited (CheckFullDay, initial_context\<lparr>yesno := Val False\<rparr>)
         [SPEAK_COMPLETE, SPEAK_COMPLETE, recognised ''14'', LISTEN_COMPLETE, SPEAK_COMPLETE]
       = [AskTime, ListenTime, ListenTime, CheckTime, ConfirmAppointment]
   \<and> CheckTime \<in> set (until_confirm (visited (CheckFullDay, initial_context\<lparr>yesno := Val False\<rparr>)
         [SPEAK_COMPLETE, SPEAK_COMPLETE, recognised ''14'', LISTEN_COMPLETE, SPEAK_COMPLETE]))"
  using
    whole_day_branch_exclusive [of "initial_context\<lparr>yesno := Val True\<rparr>"
      "[SPEAK_COMPLETE, SPEAK_COMPLETE]"]
    whole_day_branch_exclusive [of "initial_context\<lparr>yesno := Val False\<rparr>"
      "[SPEAK_COMPLETE, SPEAK_COMPLETE, recognised ''14'', LISTEN_COMPLETE, SPEAK_COMPLETE]"]
  by (simp add: step_def initial_context_def recognised_def resolve until_confirm_def)


subsection \<open>Reading \<open>lastResult\<close> in \<open>CheckConfirmation\<close>\<close>

lemma run_append:
  "run snap (es @ es') =
     (case run snap es of
        Inl err \<Rightarrow> Inl err
      | Inr (snap', ds) \<Rightarrow>
          (case run snap' es' of
             Inl err \<Rightarrow> Inl err
           | Inr (snap'', ds') \<Rightarrow> Inr (snap'', ds @ ds')))"
  by (induction es arbitrary: snap) (auto split: sum.splits prod.splits)

text \<open>
  An event other than \<open>LISTEN_COMPLETE\<close> does not enter \<open>CheckConfirmation\<close>, and it
  does not throw when a recognition carries a hypothesis and \<open>CheckConfirmation\<close> can
  read one.
\<close>

lemma step_other_keeps_readable:
  assumes "s = CheckConfirmation \<longrightarrow> (\<exists>h hs. lastResult ctx = Val (h # hs))"
    and "e \<noteq> LISTEN_COMPLETE" and "\<forall>v. e = RECOGNISED v \<longrightarrow> v \<noteq> []"
  shows "\<exists>s' ctx' ds. step (s, ctx) e = Inr ((s', ctx'), ds)
           \<and> (s' = CheckConfirmation \<longrightarrow> (\<exists>h hs. lastResult ctx' = Val (h # hs)))"
  using assms
  by (cases s; cases e) (auto simp: step_def Let_def neq_Nil_conv split: sum.splits)

text \<open>
  A recognition in \<open>ListenConfirm\<close> writes \<open>lastResult\<close>, so that the
  \<open>LISTEN_COMPLETE\<close> after it enters \<open>CheckConfirmation\<close> with a hypothesis.
\<close>

lemma recognised_complete_keeps_readable:
  assumes "s = CheckConfirmation \<longrightarrow> (\<exists>h hs. lastResult ctx = Val (h # hs))"
    and "v \<noteq> []"
  shows "\<exists>s' ctx' ds. run (s, ctx) [RECOGNISED v, LISTEN_COMPLETE] = Inr ((s', ctx'), ds)
           \<and> (s' = CheckConfirmation \<longrightarrow> (\<exists>h hs. lastResult ctx' = Val (h # hs)))"
  using assms
  by (cases s) (auto simp: step_def Let_def neq_Nil_conv split: sum.splits)

text \<open>
  \<open>ASR_NOINPUT\<close> takes \<open>ListenConfirm\<close> to \<open>ConfirmAppointment\<close>, where the
  \<open>LISTEN_COMPLETE\<close> after it has no handler.
\<close>

lemma noinput_complete_keeps_readable:
  assumes "s = CheckConfirmation \<longrightarrow> (\<exists>h hs. lastResult ctx = Val (h # hs))"
  shows "\<exists>s' ctx' ds. run (s, ctx) [ASR_NOINPUT, LISTEN_COMPLETE] = Inr ((s', ctx'), ds)
           \<and> (s' = CheckConfirmation \<longrightarrow> (\<exists>h hs. lastResult ctx' = Val (h # hs)))"
  using assms
  by (cases s) (auto simp: step_def Let_def neq_Nil_conv split: sum.splits)

lemma immediate_completion_cases:
  assumes "immediate_completion (e # es)"
  shows "(e \<noteq> LISTEN_COMPLETE \<and> (\<forall>v. e = RECOGNISED v \<longrightarrow> v \<noteq> []))
         \<and> ((e \<noteq> ASR_NOINPUT \<and> (\<forall>v. e \<noteq> RECOGNISED v) \<and> immediate_completion es)
             \<or> es = []
             \<or> (\<exists>es'. es = LISTEN_COMPLETE # es' \<and> immediate_completion es'
                   \<and> (e = ASR_NOINPUT \<or> (\<exists>v. e = RECOGNISED v))))"
  using assms by (cases e; cases es) auto

lemma contract_run_readable:
  "immediate_completion es \<Longrightarrow>
   (s = CheckConfirmation \<longrightarrow> (\<exists>h hs. lastResult ctx = Val (h # hs))) \<Longrightarrow>
   \<exists>s' ctx' ds. run (s, ctx) es = Inr ((s', ctx'), ds)
     \<and> (s' = CheckConfirmation \<longrightarrow> (\<exists>h hs. lastResult ctx' = Val (h # hs)))"
proof (induction es arbitrary: s ctx rule: length_induct)
  case (1 es)
  note IH = "1.IH" and contract = "1.prems"(1) and readable = "1.prems"(2)
  show ?case
  proof (cases es)
    case Nil
    with readable show ?thesis by simp
  next
    case (Cons e es1)
    from contract Cons have c: "immediate_completion (e # es1)" by simp
    note cc = immediate_completion_cases [OF c]
    from cc have e1: "e \<noteq> LISTEN_COMPLETE" and e2: "\<forall>v. e = RECOGNISED v \<longrightarrow> v \<noteq> []"
      by simp_all
    from cc consider
        (other) "immediate_completion es1"
      | (last) "es1 = []"
      | (pair) es2 where "es1 = LISTEN_COMPLETE # es2" "immediate_completion es2"
               "e = ASR_NOINPUT \<or> (\<exists>v. e = RECOGNISED v)"
      by blast
    then show ?thesis
    proof cases
      case other
      from step_other_keeps_readable [OF readable e1 e2]
      obtain s1 ctx1 ds1 where st: "step (s, ctx) e = Inr ((s1, ctx1), ds1)"
        and r1: "s1 = CheckConfirmation \<longrightarrow> (\<exists>h hs. lastResult ctx1 = Val (h # hs))"
        by blast
      from Cons have "length es1 < length es" by simp
      with IH other r1
      obtain s' ctx' ds where rn: "run (s1, ctx1) es1 = Inr ((s', ctx'), ds)"
        and r': "s' = CheckConfirmation \<longrightarrow> (\<exists>h hs. lastResult ctx' = Val (h # hs))"
        by blast
      from st rn have "run (s, ctx) (e # es1) = Inr ((s', ctx'), ds1 @ ds)" by simp
      with r' Cons show ?thesis by blast
    next
      case last
      from step_other_keeps_readable [OF readable e1 e2]
      obtain s1 ctx1 ds1 where st: "step (s, ctx) e = Inr ((s1, ctx1), ds1)"
        and r1: "s1 = CheckConfirmation \<longrightarrow> (\<exists>h hs. lastResult ctx1 = Val (h # hs))"
        by blast
      from st have "run (s, ctx) [e] = Inr ((s1, ctx1), ds1)" by simp
      with r1 Cons last show ?thesis by blast
    next
      case pair
      have "\<exists>s1 ctx1 ds1. run (s, ctx) [e, LISTEN_COMPLETE] = Inr ((s1, ctx1), ds1)
              \<and> (s1 = CheckConfirmation \<longrightarrow> (\<exists>h hs. lastResult ctx1 = Val (h # hs)))"
        using pair(3) e2 noinput_complete_keeps_readable [OF readable]
          recognised_complete_keeps_readable [OF readable]
        by blast
      then obtain s1 ctx1 ds1
        where rn1: "run (s, ctx) [e, LISTEN_COMPLETE] = Inr ((s1, ctx1), ds1)"
        and r1: "s1 = CheckConfirmation \<longrightarrow> (\<exists>h hs. lastResult ctx1 = Val (h # hs))"
        by blast
      from Cons pair(1) have "length es2 < length es" by simp
      with IH pair(2) r1
      obtain s' ctx' ds where rn: "run (s1, ctx1) es2 = Inr ((s', ctx'), ds)"
        and r': "s' = CheckConfirmation \<longrightarrow> (\<exists>h hs. lastResult ctx' = Val (h # hs))"
        by blast
      have "run (s, ctx) ([e, LISTEN_COMPLETE] @ es2) = Inr ((s', ctx'), ds1 @ ds)"
        by (simp only: run_append rn1 rn sum.case prod.case)
      with r' Cons pair(1) show ?thesis by auto
    qed
  qed
qed

text \<open>The contract holds of every prefix of a sequence it holds of.\<close>

lemma immediate_completion_take: "immediate_completion es \<Longrightarrow> immediate_completion (take n es)"
proof (induction es arbitrary: n rule: length_induct)
  case (1 es)
  show ?case
  proof (cases es)
    case Nil
    then show ?thesis by simp
  next
    case (Cons e es1)
    note es = Cons
    show ?thesis
    proof (cases n)
      case 0
      then show ?thesis by simp
    next
      case (Suc m)
      note n = Suc
      show ?thesis
      proof (cases es1)
        case Nil
        with es "1.prems" n show ?thesis by simp
      next
        case (Cons e' es2)
        note es1 = Cons
        show ?thesis
        proof (cases m)
          case 0
          with n es1 es "1.prems" show ?thesis by (cases e) simp_all
        next
          case (Suc k)
          from es1 es have l1: "length es1 < length es" and l2: "length es2 < length es"
            by simp_all
          from "1.IH" l1 have i1: "immediate_completion es1 \<Longrightarrow> immediate_completion (take m es1)"
            by blast
          from "1.IH" l2 have i2: "immediate_completion es2 \<Longrightarrow> immediate_completion (take k es2)"
            by blast
          from "1.prems" es es1 n Suc i1 i2 show ?thesis
            by (cases e) simp_all
        qed
      qed
    qed
  qed
qed

text \<open>
  When every \<open>LISTEN_COMPLETE\<close> is the very next event after the outcome of its listen,
  no run from the start of the machine throws, and in \<open>CheckConfirmation\<close>
  \<open>lastResult\<close> is an array with a first hypothesis.
\<close>

lemma immediate_completion_reads_hypothesis:
  assumes "immediate_completion es"
  shows "\<forall>n. \<exists>s ctx ds. run initial_snapshot (take n es) = Inr ((s, ctx), ds)
           \<and> (s = CheckConfirmation \<longrightarrow>
                (\<exists>h hs. lastResult ctx = Val (h # hs)
                   \<and> last_utterance (lastResult ctx) = Inr (utterance h)))"
proof
  fix n
  from assms have "immediate_completion (take n es)" by (rule immediate_completion_take)
  from contract_run_readable [OF this, of Prepare initial_context]
  obtain s ctx ds where rn: "run initial_snapshot (take n es) = Inr ((s, ctx), ds)"
    and rd: "s = CheckConfirmation \<longrightarrow> (\<exists>h hs. lastResult ctx = Val (h # hs))"
    by (auto simp: initial_snapshot_def)
  from rd have "s = CheckConfirmation \<longrightarrow>
      (\<exists>h hs. lastResult ctx = Val (h # hs) \<and> last_utterance (lastResult ctx) = Inr (utterance h))"
    by auto
  with rn show "\<exists>s ctx ds. run initial_snapshot (take n es) = Inr ((s, ctx), ds)
           \<and> (s = CheckConfirmation \<longrightarrow>
                (\<exists>h hs. lastResult ctx = Val (h # hs)
                   \<and> last_utterance (lastResult ctx) = Inr (utterance h)))"
    by blast
qed

lemma immediate_completion_contract_from:
  "immediate_completion es \<Longrightarrow> contract_from False es"
proof (induction es rule: length_induct)
  case (1 es)
  show ?case
  proof (cases es)
    case Nil
    then show ?thesis by simp
  next
    case (Cons e es1)
    from "1.prems" Cons have c: "immediate_completion (e # es1)" by simp
    from immediate_completion_cases [OF c] consider
        (other) "e \<noteq> LISTEN_COMPLETE" "e \<noteq> ASR_NOINPUT" "\<forall>v. e \<noteq> RECOGNISED v"
                "immediate_completion es1"
      | (last) "e \<noteq> LISTEN_COMPLETE" "\<forall>v. e = RECOGNISED v \<longrightarrow> v \<noteq> []" "es1 = []"
      | (pair) es2 where "es1 = LISTEN_COMPLETE # es2" "immediate_completion es2"
               "e = ASR_NOINPUT \<or> (\<exists>v. e = RECOGNISED v \<and> v \<noteq> [])"
      by blast
    then show ?thesis
    proof cases
      case other
      from Cons have "length es1 < length es" by simp
      with "1.IH" other(4) have "contract_from False es1" by blast
      with other Cons show ?thesis by (cases e) simp_all
    next
      case last
      with Cons show ?thesis by (cases e) simp_all
    next
      case pair
      from Cons pair(1) have "length es2 < length es" by simp
      with "1.IH" pair(2) have "contract_from False es2" by blast
      with pair Cons show ?thesis by auto
    qed
  qed
qed

lemma immediate_completion_adapter_contract:
  "immediate_completion es \<Longrightarrow> adapter_contract es"
  by (simp add: adapter_contract_def immediate_completion_contract_from)


end
